theory Spec2Isabelle
  imports Main "HOL-Library.AList"
begin

section \<open>Common data\<close>

text \<open>
  Python dictionaries keep their keys distinct and in insertion order. They are modelled as
  association lists: \<open>AList.update k v d\<close> is the assignment \<^verbatim>\<open>d[k] = v\<close>
  (the value is replaced in place when the key is present, the pair is appended otherwise),
  \<open>map_of d k\<close> is the lookup \<^verbatim>\<open>d[k]\<close> and \<open>map fst d\<close> is \<^verbatim>\<open>d.keys()\<close>.
\<close>

type_synonym dict = "(string \<times> string) list"

type_synonym path = string

text \<open>
  Exceptions that leave a function are values. \<open>SystemExit\<close> carries the message given to
  \<^verbatim>\<open>sys.exit\<close>; the others are the exceptions the library calls raise on the paths modelled.
\<close>

datatype error =
    SystemExit string
  | FileNotFoundError path
  | SameFileError path
  | KeyError string
  | IndexError
  | TypeError

section \<open>deploy.py: the operating system as seen by the deployment\<close>

text \<open>
  A path names a regular file with its bytes, owner, group, permission bits and modification
  time, or nothing. Directories, links and access rights are outside the model: every call on
  an existing path is permitted. \<open>st_mode\<close> stands for the permission bits; the file-type
  bits of \<^verbatim>\<open>st_mode\<close> are those of a regular file throughout.
  The process has an effective user and group, which own the files it creates, and a clock
  that stamps what it writes. \<open>launched\<close> lists the shell commands handed to
  \<^verbatim>\<open>subprocess.call\<close>, oldest first.
\<close>

record inode =
  content :: string
  st_uid :: nat
  st_gid :: nat
  st_mode :: nat
  st_mtime :: nat

record os =
  files :: "path \<rightharpoonup> inode"
  euid :: nat
  egid :: nat
  clock :: nat
  launched :: "string list"

text \<open>A computation on the operating system returns a value or an exception, and the state.\<close>

type_synonym 'a exec = "os \<Rightarrow> (error + 'a) \<times> os"

definition os_path_exists :: "os \<Rightarrow> path \<Rightarrow> bool" where
  "os_path_exists s p = (files s p \<noteq> None)"

definition os_stat :: "path \<Rightarrow> os \<Rightarrow> error + inode" where
  "os_stat p s = (case files s p of None \<Rightarrow> Inl (FileNotFoundError p) | Some f \<Rightarrow> Inr f)"

text \<open>\<^verbatim>\<open>os.rename(src, dst)\<close>: the file moves with its metadata and replaces what \<open>dst\<close> named.\<close>

definition os_rename :: "path \<Rightarrow> path \<Rightarrow> os \<Rightarrow> error + os" where
  "os_rename src dst s =
     (case files s src of
        None \<Rightarrow> Inl (FileNotFoundError src)
      | Some f \<Rightarrow> Inr (s\<lparr>files := (files s)(src := None, dst \<mapsto> f)\<rparr>))"

text \<open>
  \<^verbatim>\<open>shutil.copy(src, dst)\<close> copies the bytes and the permission bits. A destination that
  exists keeps its owner; a new one belongs to the process. The modification time is the
  time of the write.
\<close>

definition shutil_copy :: "path \<Rightarrow> path \<Rightarrow> os \<Rightarrow> error + os" where
  "shutil_copy src dst s =
     (case files s src of
        None \<Rightarrow> Inl (FileNotFoundError src)
      | Some f \<Rightarrow>
          if src = dst then Inl (SameFileError src)
          else
            let g = (case files s dst of
                       None \<Rightarrow> \<lparr>content = content f, st_uid = euid s, st_gid = egid s,
                                st_mode = st_mode f, st_mtime = clock s\<rparr>
                     | Some d \<Rightarrow> d\<lparr>content := content f, st_mode := st_mode f,
                                  st_mtime := clock s\<rparr>)
            in Inr (s\<lparr>files := (files s)(dst \<mapsto> g)\<rparr>))"

definition os_chown :: "path \<Rightarrow> nat \<Rightarrow> nat \<Rightarrow> os \<Rightarrow> error + os" where
  "os_chown p uid gid s =
     (case files s p of
        None \<Rightarrow> Inl (FileNotFoundError p)
      | Some f \<Rightarrow> Inr (s\<lparr>files := (files s)(p \<mapsto> f\<lparr>st_uid := uid, st_gid := gid\<rparr>)\<rparr>))"

definition os_chmod :: "path \<Rightarrow> nat \<Rightarrow> os \<Rightarrow> error + os" where
  "os_chmod p mode s =
     (case files s p of
        None \<Rightarrow> Inl (FileNotFoundError p)
      | Some f \<Rightarrow> Inr (s\<lparr>files := (files s)(p \<mapsto> f\<lparr>st_mode := mode\<rparr>)\<rparr>))"

text \<open>
  \<^verbatim>\<open>filecmp.cmp(f1, f2)\<close> is called without its third argument, so \<^verbatim>\<open>shallow\<close> has its
  default \<^verbatim>\<open>True\<close>: the two \<^verbatim>\<open>os.stat\<close> signatures (file type, size, modification time)
  are compared first and equal signatures make the files equal without reading them.
  With different signatures, different sizes make the files different, and only then are the
  bytes compared. The file type is the same for all files of the model and is left out of
  the signature.
\<close>

definition sig :: "inode \<Rightarrow> nat \<times> nat" where
  "sig f = (length (content f), st_mtime f)"

definition filecmp_cmp :: "path \<Rightarrow> path \<Rightarrow> os \<Rightarrow> error + bool" where
  "filecmp_cmp f1 f2 s =
     (case os_stat f1 s of
        Inl e \<Rightarrow> Inl e
      | Inr st1 \<Rightarrow>
          (case os_stat f2 s of
             Inl e \<Rightarrow> Inl e
           | Inr st2 \<Rightarrow>
               if sig st1 = sig st2 then Inr True
               else if fst (sig st1) \<noteq> fst (sig st2) then Inr False
               else Inr (content st1 = content st2)))"

section \<open>deploy.py: deployment\<close>

definition LETSENCRYPT_ROOT :: "string \<Rightarrow> string \<Rightarrow> path" where
  "LETSENCRYPT_ROOT domain pem = ''/etc/dehydrated/certs/'' @ domain @ ''/'' @ pem @ ''.pem''"

definition ERROR :: "string \<Rightarrow> string \<Rightarrow> string" where
  "ERROR name fs =
     '' + ERROR: Could not locate '' @ name @ '' files:'' @ [CHR 0x0A, CHR 0x09] @ fs"

text \<open>
  \<open>deploy_file\<close>: equal files are skipped; otherwise the old file's metadata is read, the old
  file is renamed to \<open>old_file.bak\<close>, the new file is copied to \<open>old_file\<close> and the owner,
  group and mode read before are put on the copy. The messages printed are not modelled.
\<close>

definition deploy_file :: "string \<Rightarrow> path \<Rightarrow> path \<Rightarrow> bool exec" where
  "deploy_file file_type old_file new_file s =
     (case filecmp_cmp old_file new_file s of
        Inl e \<Rightarrow> (Inl e, s)
      | Inr True \<Rightarrow> (Inr False, s)
      | Inr False \<Rightarrow>
          (case os_stat old_file s of
             Inl e \<Rightarrow> (Inl e, s)
           | Inr stat \<Rightarrow>
               (case os_rename old_file (old_file @ ''.bak'') s of
                  Inl e \<Rightarrow> (Inl e, s)
                | Inr s1 \<Rightarrow>
                    (case shutil_copy new_file old_file s1 of
                       Inl e \<Rightarrow> (Inl e, s1)
                     | Inr s2 \<Rightarrow>
                         (case os_chown old_file (st_uid stat) (st_gid stat) s2 of
                            Inl e \<Rightarrow> (Inl e, s2)
                          | Inr s3 \<Rightarrow>
                              (case os_chmod old_file (st_mode stat) s3 of
                                 Inl e \<Rightarrow> (Inl e, s3)
                               | Inr s4 \<Rightarrow> (Inr True, s4)))))))"

text \<open>
  A \<^verbatim>\<open>for\<close> loop over a list with one variable carried from round to round: an exception in
  the body ends the loop with the state reached.
\<close>

fun for_each :: "('a \<Rightarrow> 'v \<Rightarrow> 'v exec) \<Rightarrow> 'a list \<Rightarrow> 'v \<Rightarrow> 'v exec" where
  "for_each body [] v s = (Inr v, s)"
| "for_each body (x # xs) v s =
     (case body x v s of
        (Inl e, s') \<Rightarrow> (Inl e, s')
      | (Inr v', s') \<Rightarrow> for_each body xs v' s')"

text \<open>
  A location maps file types to the paths of the deployed files; a domain's configuration is
  a list of locations. \<open>deploy_body\<close> is the body of the inner loop of \<open>deploy_domain\<close> for
  one file type of one location, with the flag \<open>deployed\<close> carried through.
\<close>

type_synonym location = "(string \<times> path) list"

definition deploy_body :: "string \<Rightarrow> location \<Rightarrow> string \<Rightarrow> bool \<Rightarrow> bool exec" where
  "deploy_body domain location file_type deployed s =
     (let new_file = LETSENCRYPT_ROOT domain file_type in
      if \<not> os_path_exists s new_file
      then (Inl (SystemExit (ERROR (''new '' @ file_type) new_file)), s)
      else
        (case map_of location file_type of
           None \<Rightarrow> (Inl (KeyError file_type), s)
         | Some old_file \<Rightarrow>
             if \<not> os_path_exists s old_file
             then (Inl (SystemExit (ERROR (''old '' @ file_type) old_file)), s)
             else
               (case deploy_file file_type old_file new_file s of
                  (Inl e, s') \<Rightarrow> (Inl e, s')
                | (Inr deploy_success, s') \<Rightarrow>
                    (Inr (if deploy_success then True else deployed), s'))))"

definition deploy_domain :: "string \<Rightarrow> location list \<Rightarrow> bool exec" where
  "deploy_domain domain config =
     for_each (\<lambda>location. for_each (deploy_body domain location) (map fst location))
       config False"

text \<open>
  The configuration is the parsed YAML file; the parser is a parameter, and the path of the
  file (which depends on the home directory) another. Whether \<^verbatim>\<open>subprocess.call\<close>
  returns an exit status or raises \<^verbatim>\<open>OSError\<close>, the loop over the actions prints and goes
  on: \<open>run_action\<close> records the command handed to the shell and nothing else. What the
  command itself does to the files is outside the model.
\<close>

record config =
  domains :: "(string \<times> location list) list"
  post_actions :: "string list"

definition parse_config :: "path \<Rightarrow> (string \<Rightarrow> config) \<Rightarrow> os \<Rightarrow> error + config" where
  "parse_config CONFIG_FILE yaml_load s =
     (case files s CONFIG_FILE of
        None \<Rightarrow> Inl (SystemExit (ERROR ''deployment config'' CONFIG_FILE))
      | Some f \<Rightarrow> Inr (yaml_load (content f)))"

definition run_action :: "string \<Rightarrow> unit \<Rightarrow> unit exec" where
  "run_action action u s = (Inr (), s\<lparr>launched := launched s @ [action]\<rparr>)"

definition domain_body :: "config \<Rightarrow> string \<Rightarrow> bool \<Rightarrow> bool exec" where
  "domain_body cfg domain saw_new_deployments s =
     (case map_of (domains cfg) domain of
        None \<Rightarrow> (Inl (KeyError domain), s)
      | Some locations \<Rightarrow>
          (case deploy_domain domain locations s of
             (Inl e, s') \<Rightarrow> (Inl e, s')
           | (Inr deployed, s') \<Rightarrow>
               (Inr (if deployed then True else saw_new_deployments), s')))"

definition run_deployment :: "path \<Rightarrow> (string \<Rightarrow> config) \<Rightarrow> unit exec" where
  "run_deployment CONFIG_FILE yaml_load s =
     (case parse_config CONFIG_FILE yaml_load s of
        Inl e \<Rightarrow> (Inl e, s)
      | Inr cfg \<Rightarrow>
          (case for_each (domain_body cfg) (map fst (domains cfg)) False s of
             (Inl e, s') \<Rightarrow> (Inl e, s')
           | (Inr saw_new_deployments, s') \<Rightarrow>
               if saw_new_deployments
               then for_each run_action (post_actions cfg) () s'
               else (Inr (), s')))"

text \<open>
  Two observers of a run. \<open>steps\<close> lists the (location, file type) pairs of a domain in the
  order in which the two nested loops of \<open>deploy_domain\<close> visit them. \<open>reports\<close> lists what
  the calls of \<open>deploy_domain\<close> made by \<open>run_deployment\<close> return, domain after domain, up to
  and including the first exception.
\<close>

definition steps :: "location list \<Rightarrow> (location \<times> string) list" where
  "steps config = concat (map (\<lambda>location. map (Pair location) (map fst location)) config)"

fun reports :: "config \<Rightarrow> string list \<Rightarrow> os \<Rightarrow> (error + bool) list" where
  "reports cfg [] s = []"
| "reports cfg (domain # rest) s =
     (case map_of (domains cfg) domain of
        None \<Rightarrow> [Inl (KeyError domain)]
      | Some locations \<Rightarrow>
          (case deploy_domain domain locations s of
             (Inl e, s') \<Rightarrow> [Inl e]
           | (Inr deployed, s') \<Rightarrow> Inr deployed # reports cfg rest s'))"

section \<open>hook.py: state of the process and of its environment\<close>

text \<open>
  The module's globals are \<open>DNS_COUNTER\<close>, an integer, and \<open>HOST_API_PARAMS\<close>, a name bound
  to a dictionary object. Objects live in a heap and a name holds an address, so that
  \<^verbatim>\<open>remove_params = HOST_API_PARAMS\<close> makes a second name for the same object and an
  assignment through either name is seen through the other.

  The environment is the DNS provider behind the HTTP API and the resolver. \<open>provider\<close> is
  the provider's record store; \<open>trace\<close> lists, oldest first, the GET requests sent (with the
  parameters as they were when sent) and the pauses taken; \<open>dns_queries\<close> counts the resolver
  queries made, and the resolver's answer to a query is a function of that count and of the
  name asked for: either a \<^verbatim>\<open>DNSException\<close> or the TXT records found, each a list of
  character strings. The messages printed are not modelled. The parameters that the source
  calls \<^verbatim>\<open>record\<close> and \<^verbatim>\<open>value\<close> are \<open>record_name\<close> and \<open>val\<close> here.
\<close>

type_synonym addr = nat

record dns_item =
  item_record :: string
  item_type :: string
  item_value :: string

datatype json = Listing "dns_item list" | Status string string

datatype event = HttpGet string dict | Sleep nat

datatype dns_exception = DNSException

type_synonym rdata = "string list"

type_synonym resolver = "nat \<Rightarrow> string \<Rightarrow> dns_exception + rdata list"

record hook_state =
  DNS_COUNTER :: int
  heap :: "addr \<Rightarrow> dict"
  trace :: "event list"
  provider :: "dns_item list"
  dns_queries :: nat

type_synonym 'a hook = "hook_state \<Rightarrow> (error + 'a) \<times> hook_state"

definition DNS_PREFIX :: string where
  "DNS_PREFIX = ''_acme-challenge''"

definition HOST_API_ROOT :: string where
  "HOST_API_ROOT = ''https://api.dreamhost.com''"

definition HOST_API_PARAMS :: addr where
  "HOST_API_PARAMS = 0"

text \<open>
  Loading the module reads the API key from the environment and exits with status 1 when it
  is not there.
\<close>

definition module_init :: "string option \<Rightarrow> dns_item list \<Rightarrow> error + hook_state" where
  "module_init DREAMHOST_API_KEY store =
     (case DREAMHOST_API_KEY of
        None \<Rightarrow> Inl (SystemExit ''1'')
      | Some HOST_API_KEY \<Rightarrow>
          Inr \<lparr>DNS_COUNTER = 0,
               heap = (\<lambda>a. [])(HOST_API_PARAMS := [(''key'', HOST_API_KEY), (''format'', ''json'')]),
               trace = [], provider = store, dns_queries = 0\<rparr>)"

definition setitem :: "addr \<Rightarrow> string \<Rightarrow> string \<Rightarrow> hook_state \<Rightarrow> hook_state" where
  "setitem d k v st = st\<lparr>heap := (heap st)(d := AList.update k v (heap st d))\<rparr>"

definition time_sleep :: "nat \<Rightarrow> hook_state \<Rightarrow> hook_state" where
  "time_sleep secs st = st\<lparr>trace := trace st @ [Sleep secs]\<rparr>"

text \<open>
  The provider, as far as the hook depends on it: listing returns the records and changes
  nothing, adding appends a record (a name may then have several), removing deletes the
  records equal to the one named. It always answers; network failures are outside the model.
\<close>

definition matches :: "dict \<Rightarrow> dns_item \<Rightarrow> bool" where
  "matches params i =
     (map_of params ''record'' = Some (item_record i) \<and>
      map_of params ''type'' = Some (item_type i) \<and>
      map_of params ''value'' = Some (item_value i))"

definition dreamhost :: "dict \<Rightarrow> dns_item list \<Rightarrow> json \<times> dns_item list" where
  "dreamhost params store =
     (if map_of params ''cmd'' = Some ''dns-list_records'' then (Listing store, store)
      else if map_of params ''cmd'' = Some ''dns-add_record'' then
        (case (map_of params ''record'', map_of params ''type'', map_of params ''value'') of
           (Some r, Some t, Some v) \<Rightarrow>
             (Status ''record_added'' ''success'',
              store @ [\<lparr>item_record = r, item_type = t, item_value = v\<rparr>])
         | _ \<Rightarrow> (Status ''missing_parameter'' ''error'', store))
      else if map_of params ''cmd'' = Some ''dns-remove_record'' then
        (if \<exists>i \<in> set store. matches params i
         then (Status ''record_removed'' ''success'', filter (\<lambda>i. \<not> matches params i) store)
         else (Status ''no_such_record'' ''error'', store))
      else (Status ''no_such_cmd'' ''error'', store))"

definition requests_get :: "string \<Rightarrow> dict \<Rightarrow> hook_state \<Rightarrow> json \<times> hook_state" where
  "requests_get url params st =
     (fst (dreamhost params (provider st)),
      st\<lparr>trace := trace st @ [HttpGet url params],
         provider := snd (dreamhost params (provider st))\<rparr>)"

section \<open>hook.py: provider calls\<close>

definition remove_record :: "string \<Rightarrow> string \<Rightarrow> hook_state \<Rightarrow> json \<times> hook_state" where
  "remove_record record_name val st =
     (let remove_params = HOST_API_PARAMS;
          st1 = setitem remove_params ''cmd'' ''dns-remove_record'' st;
          st2 = setitem remove_params ''record'' record_name st1;
          st3 = setitem remove_params ''type'' ''TXT'' st2;
          st4 = setitem remove_params ''value'' val st3
      in requests_get HOST_API_ROOT (heap st4 remove_params) st4)"

definition add_record :: "string \<Rightarrow> string \<Rightarrow> hook_state \<Rightarrow> json \<times> hook_state" where
  "add_record record_name val st =
     (let add_params = HOST_API_PARAMS;
          st1 = setitem add_params ''cmd'' ''dns-add_record'' st;
          st2 = setitem add_params ''record'' record_name st1;
          st3 = setitem add_params ''type'' ''TXT'' st2;
          st4 = setitem add_params ''value'' val st3
      in requests_get HOST_API_ROOT (heap st4 add_params) st4)"

text \<open>
  \<open>record_exists\<close> returns the pair \<^verbatim>\<open>(True, value)\<close> of the first record with the name, written
  \<open>Some value\<close>, or \<^verbatim>\<open>(False, None)\<close>, written \<open>None\<close>. An answer whose \<^verbatim>\<open>data\<close> is
  a message and not a list is iterated character by character, and indexing the first
  character with \<^verbatim>\<open>'record'\<close> raises \<^verbatim>\<open>TypeError\<close>.
\<close>

definition record_exists :: "string \<Rightarrow> string option hook" where
  "record_exists record_name st =
     (let exist_params = HOST_API_PARAMS;
          st1 = setitem exist_params ''cmd'' ''dns-list_records'' st;
          (dns_list, st2) = requests_get HOST_API_ROOT (heap st1 exist_params) st1
      in case dns_list of
           Listing data \<Rightarrow>
             (case find (\<lambda>dns_item. item_record dns_item = record_name) data of
                Some dns_item \<Rightarrow> (Inr (Some (item_value dns_item)), st2)
              | None \<Rightarrow> (Inr None, st2))
         | Status data result \<Rightarrow>
             (if data = [] then (Inr None, st2) else (Inl TypeError, st2)))"

section \<open>hook.py: propagation check\<close>

text \<open>
  \<^verbatim>\<open>rdata.to_text()\<close> of a TXT record writes each of its strings between double quotes,
  with a backslash before a double quote or a backslash and \<^verbatim>\<open>\DDD\<close> for a byte that is
  not printable ASCII, and separates the strings by one space. \<^verbatim>\<open>[1:-1]\<close> drops the first and
  the last character of the text.
\<close>

definition dec3 :: "nat \<Rightarrow> string" where
  "dec3 n = [char_of (48 + n div 100), char_of (48 + n div 10 mod 10), char_of (48 + n mod 10)]"

definition escapify_char :: "char \<Rightarrow> string" where
  "escapify_char c =
     (if c = CHR 0x22 \<or> c = CHR 0x5C then [CHR 0x5C, c]
      else if (0x20::nat) \<le> of_char c \<and> of_char c < (0x7F::nat) then [c]
      else CHR 0x5C # dec3 (of_char c))"

definition escapify :: "string \<Rightarrow> string" where
  "escapify qstring = concat (map escapify_char qstring)"

fun to_text :: "rdata \<Rightarrow> string" where
  "to_text [] = []"
| "to_text [s] = CHR 0x22 # escapify s @ [CHR 0x22]"
| "to_text (s # t # rest) = CHR 0x22 # escapify s @ [CHR 0x22] @ '' '' @ to_text (t # rest)"

definition slice_1_m1 :: "string \<Rightarrow> string" where
  "slice_1_m1 text = butlast (tl text)"

definition has_dns_propagated :: "resolver \<Rightarrow> string \<Rightarrow> string \<Rightarrow> hook_state \<Rightarrow> bool \<times> hook_state" where
  "has_dns_propagated resolver record_name val st =
     (let st0 = st\<lparr>dns_queries := dns_queries st + 1\<rparr> in
      case resolver (dns_queries st) record_name of
        Inl DNSException \<Rightarrow> (False, st0)
      | Inr answer \<Rightarrow>
          let txt_records = map (\<lambda>rdata. slice_1_m1 (to_text rdata)) answer in
          if val \<in> set txt_records then
            let st1 = st0\<lparr>DNS_COUNTER := DNS_COUNTER st0 + 1\<rparr> in
            if DNS_COUNTER st1 = 3 then (True, st1) else (False, st1)
          else (False, st0))"

text \<open>
  The loop \<^verbatim>\<open>while has_dns_propagated(record, token) is False\<close> has no bound of its own.
  \<open>poll n\<close> runs at most \<open>n\<close> rounds of it: \<open>Some ()\<close> says that the loop was left within these
  rounds, \<open>None\<close> that it is still running after them; the state is the one reached.
\<close>

fun poll :: "nat \<Rightarrow> resolver \<Rightarrow> string \<Rightarrow> string \<Rightarrow> hook_state \<Rightarrow> unit option \<times> hook_state" where
  "poll 0 resolver record_name token st = (None, st)"
| "poll (Suc n) resolver record_name token st =
     (case has_dns_propagated resolver record_name token st of
        (True, st') \<Rightarrow> (Some (), st')
      | (False, st') \<Rightarrow> poll n resolver record_name token (time_sleep 30 st'))"

section \<open>hook.py: challenge operations\<close>

text \<open>
  \<open>args\<close> are the command-line arguments after the operation's name: \<^verbatim>\<open>args[0]\<close> is the
  domain and \<^verbatim>\<open>args[2]\<close> the token.
\<close>

definition deploy_challenge :: "nat \<Rightarrow> resolver \<Rightarrow> string list \<Rightarrow> unit option hook" where
  "deploy_challenge fuel resolver args st =
     (case args of
        domain # a1 # token # rest \<Rightarrow>
          (let record_name = DNS_PREFIX @ ''.'' @ domain in
           case record_exists record_name st of
             (Inl e, st1) \<Rightarrow> (Inl e, st1)
           | (Inr found, st1) \<Rightarrow>
               (let st2 = (case found of
                             Some val \<Rightarrow> time_sleep 10 (snd (remove_record record_name val st1))
                           | None \<Rightarrow> st1);
                    st3 = time_sleep 10 (snd (add_record record_name token st2));
                    (r, st4) = poll fuel resolver record_name token st3
                in (Inr r, st4)))
      | _ \<Rightarrow> (Inl IndexError, st))"

definition clean_challenge :: "string list \<Rightarrow> unit hook" where
  "clean_challenge args st =
     (case args of
        domain # rest \<Rightarrow>
          (let record_name = DNS_PREFIX @ ''.'' @ domain in
           case record_exists record_name st of
             (Inl e, st1) \<Rightarrow> (Inl e, st1)
           | (Inr found, st1) \<Rightarrow>
               (case found of
                  Some val \<Rightarrow> (Inr (), snd (remove_record record_name val (time_sleep 30 st1)))
                | None \<Rightarrow> (Inr (), st1)))
      | [] \<Rightarrow> (Inl IndexError, st))"

text \<open>
  Observers: the parameters of the requests in a trace, in order, and whether the resolver's
  answer to query number \<open>q\<close> holds the token among its stripped texts.
\<close>

definition provider_calls :: "event list \<Rightarrow> dict list" where
  "provider_calls evs =
     concat (map (\<lambda>ev. case ev of HttpGet url params \<Rightarrow> [params] | Sleep n \<Rightarrow> []) evs)"

definition confirming :: "resolver \<Rightarrow> string \<Rightarrow> string \<Rightarrow> nat \<Rightarrow> bool" where
  "confirming resolver record_name token q =
     (case resolver q record_name of
        Inl e \<Rightarrow> False
      | Inr answer \<Rightarrow> token \<in> set (map (\<lambda>rdata. slice_1_m1 (to_text rdata)) answer))"

text \<open>
  \<open>list_params st\<close> is the shared dictionary as \<open>record_exists\<close> leaves and sends it from the
  state \<open>st\<close>: only \<^verbatim>\<open>cmd\<close> is assigned. \<open>plain\<close> holds of the characters that \<open>escapify\<close>
  copies unchanged.
\<close>

definition list_params :: "hook_state \<Rightarrow> dict" where
  "list_params st = AList.update ''cmd'' ''dns-list_records'' (heap st HOST_API_PARAMS)"

definition plain :: "char \<Rightarrow> bool" where
  "plain c = (c \<noteq> CHR 0x22 \<and> c \<noteq> CHR 0x5C \<and> (0x20::nat) \<le> of_char c \<and> of_char c < (0x7F::nat))"

section \<open>Concrete states used below\<close>

definition ex_old_cert :: inode where
  "ex_old_cert = \<lparr>content = ''OLD CERT'', st_uid = 33, st_gid = 33, st_mode = 416, st_mtime = 10\<rparr>"

definition ex_new_cert :: inode where
  "ex_new_cert = \<lparr>content = ''NEW CERTIFICATE'', st_uid = 0, st_gid = 0, st_mode = 384, st_mtime = 50\<rparr>"

definition ex_new_key :: inode where
  "ex_new_key = \<lparr>content = ''NEW KEY'', st_uid = 0, st_gid = 0, st_mode = 384, st_mtime = 50\<rparr>"

definition ex_os :: os where
  "ex_os = \<lparr>files = [''/etc/dehydrated/certs/example.com/cert.pem'' \<mapsto> ex_new_cert,
                      ''/etc/dehydrated/certs/example.com/privkey.pem'' \<mapsto> ex_new_key,
                      ''/srv/cert.pem'' \<mapsto> ex_old_cert],
            euid = 0, egid = 0, clock = 100, launched = []\<rparr>"

definition ex_location :: location where
  "ex_location = [(''cert'', ''/srv/cert.pem''), (''privkey'', ''/srv/privkey.pem'')]"

definition ex_same_sig :: inode where
  "ex_same_sig = \<lparr>content = ''NEW CERT'', st_uid = 0, st_gid = 0, st_mode = 384, st_mtime = 10\<rparr>"

definition ex_os2 :: os where
  "ex_os2 = \<lparr>files = [''/new/cert.pem'' \<mapsto> ex_same_sig, ''/srv/cert.pem'' \<mapsto> ex_old_cert],
            euid = 0, egid = 0, clock = 100, launched = []\<rparr>"

definition ex_os_after :: os where
  "ex_os_after = ex_os\<lparr>files := (files ex_os)(''/srv/cert.pem'' := None,
         ''/srv/cert.pem.bak'' \<mapsto> ex_old_cert,
         ''/srv/cert.pem'' \<mapsto> ex_new_cert\<lparr>st_uid := 33, st_gid := 33, st_mode := 416, st_mtime := 100\<rparr>)\<rparr>"

definition ex_conf :: path where
  "ex_conf = ''/root/.config/dehydrated/deploy.conf''"

definition ex_os_conf :: os where
  "ex_os_conf = ex_os\<lparr>files := (files ex_os)(ex_conf \<mapsto>
      \<lparr>content = ''domains: ...'', st_uid = 0, st_gid = 0, st_mode = 384, st_mtime = 5\<rparr>)\<rparr>"

definition ex_cfg_one :: config where
  "ex_cfg_one = \<lparr>domains = [(''example.com'', [[(''cert'', ''/srv/cert.pem'')]])],
                 post_actions = [''service nginx reload'']\<rparr>"

definition ex_cfg_two :: config where
  "ex_cfg_two = \<lparr>domains = [(''example.com'', [[(''cert'', ''/srv/cert.pem'')]]),
                            (''example.org'', [[(''cert'', ''/srv/org.pem'')]])],
                 post_actions = [''service nginx reload'']\<rparr>"

definition ex_yaml_one :: "string \<Rightarrow> config" where
  "ex_yaml_one text = ex_cfg_one"

definition ex_yaml_two :: "string \<Rightarrow> config" where
  "ex_yaml_two text = ex_cfg_two"

definition ex_os_conf_after :: os where
  "ex_os_conf_after = ex_os_conf\<lparr>files := (files ex_os_conf)(''/srv/cert.pem'' := None,
         ''/srv/cert.pem.bak'' \<mapsto> ex_old_cert,
         ''/srv/cert.pem'' \<mapsto> ex_new_cert\<lparr>st_uid := 33, st_gid := 33, st_mode := 416, st_mtime := 100\<rparr>)\<rparr>"

definition ex_hook :: hook_state where
  "ex_hook = \<lparr>DNS_COUNTER = 0,
              heap = (\<lambda>a. [])(HOST_API_PARAMS := [(''key'', ''SECRET''), (''format'', ''json'')]),
              trace = [], provider = [], dns_queries = 0\<rparr>"

definition ex_resolver :: resolver where
  "ex_resolver q name = (if q = 1 then Inr [] else Inr [[''tokenABC'']])"

definition ex_stale :: dns_item where
  "ex_stale = \<lparr>item_record = ''_acme-challenge.example.com'', item_type = ''TXT'',
               item_value = ''tokenOLD''\<rparr>"

definition ex_hook_stale :: hook_state where
  "ex_hook_stale = ex_hook\<lparr>provider := [ex_stale]\<rparr>"

definition ex_hook_done :: hook_state where
  "ex_hook_done = ex_hook\<lparr>DNS_COUNTER := 3\<rparr>"

definition ex_resolver_fail :: resolver where
  "ex_resolver_fail q name = (if q = 1 then Inl DNSException else Inr [[''tokenABC'']])"

definition ex_record :: string where
  "ex_record = ''_acme-challenge.example.com''"

definition ex_args :: "string list" where
  "ex_args = [''example.com'', ''unused'', ''tokenABC'']"

definition ex_hook_q1 :: hook_state where
  "ex_hook_q1 = ex_hook\<lparr>DNS_COUNTER := 1, dns_queries := 1\<rparr>"

definition ex_resolver_split :: resolver where
  "ex_resolver_split q name = Inr [[''token'', ''ABC'']]"

section \<open>deploy.py: properties\<close>

subsection \<open>Loops\<close>

lemma for_each_append:
  "for_each body (xs @ ys) v s =
     (case for_each body xs v s of
        (Inl e, s') \<Rightarrow> (Inl e, s')
      | (Inr v', s') \<Rightarrow> for_each body ys v' s')"
  by (induction xs arbitrary: v s) (auto split: prod.splits sum.splits)

lemma for_each_concat:
  "for_each (\<lambda>x. for_each (body x) (keys x)) xs v s =
   for_each (\<lambda>(x, k). body x k) (concat (map (\<lambda>x. map (Pair x) (keys x)) xs)) v s"
proof (induction xs arbitrary: v s)
  case Nil
  show ?case by simp
next
  case (Cons x xs)
  have inner: "for_each (\<lambda>(x, k). body x k) (map (Pair x) ks) w t = for_each (body x) ks w t"
    for ks w t
    by (induction ks arbitrary: w t) (auto split: prod.splits sum.splits)
  show ?case
    by (simp add: for_each_append inner Cons.IH split: prod.splits sum.splits)
qed

lemma for_each_Inl_iff:
  "for_each body xs v s = (Inl e, s') \<longleftrightarrow>
     (\<exists>pre x post v1 s1. xs = pre @ x # post \<and> for_each body pre v s = (Inr v1, s1)
        \<and> body x v1 s1 = (Inl e, s'))"
proof (induction xs arbitrary: v s)
  case Nil
  show ?case by simp
next
  case (Cons a xs)
  show ?case
  proof
    assume L: "for_each body (a # xs) v s = (Inl e, s')"
    show "\<exists>pre x post v1 s1. a # xs = pre @ x # post \<and> for_each body pre v s = (Inr v1, s1)
        \<and> body x v1 s1 = (Inl e, s')"
    proof (cases "body a v s")
      case (Pair r t)
      show ?thesis
      proof (cases r)
        case (Inl e')
        with Pair L have "body a v s = (Inl e, s')" by simp
        then have "a # xs = [] @ a # xs \<and> for_each body [] v s = (Inr v, s) \<and> body a v s = (Inl e, s')"
          by simp
        then show ?thesis by blast
      next
        case (Inr w)
        with Pair L have "for_each body xs w t = (Inl e, s')" by simp
        then obtain pre x post v1 s1 where
          *: "xs = pre @ x # post" "for_each body pre w t = (Inr v1, s1)" "body x v1 s1 = (Inl e, s')"
          using Cons.IH by blast
        from * Pair Inr have "a # xs = (a # pre) @ x # post \<and>
           for_each body (a # pre) v s = (Inr v1, s1) \<and> body x v1 s1 = (Inl e, s')"
          by simp
        then show ?thesis by blast
      qed
    qed
  next
    assume "\<exists>pre x post v1 s1. a # xs = pre @ x # post \<and> for_each body pre v s = (Inr v1, s1)
        \<and> body x v1 s1 = (Inl e, s')"
    then obtain pre x post v1 s1 where
      *: "a # xs = pre @ x # post" "for_each body pre v s = (Inr v1, s1)" "body x v1 s1 = (Inl e, s')"
      by blast
    have "for_each body (pre @ x # post) v s = (Inl e, s')"
      using * by (simp add: for_each_append)
    with * show "for_each body (a # xs) v s = (Inl e, s')" by simp
  qed
qed

lemma for_each_preserves:
  assumes "\<And>x v s. f (snd (body x v s)) = f s"
  shows "f (snd (for_each body xs v s)) = f s"
proof (induction xs arbitrary: v s)
  case Nil
  show ?case by simp
next
  case (Cons x xs)
  show ?case
  proof (cases "body x v s")
    case (Pair r t)
    with assms [of x v s] have t: "f t = f s" by simp
    show ?thesis
    proof (cases r)
      case (Inl e)
      with Pair t show ?thesis by simp
    next
      case (Inr w)
      with Pair t Cons.IH [of w t] show ?thesis by simp
    qed
  qed
qed

subsection \<open>The body of the loops of \<open>deploy_domain\<close>\<close>

lemma deploy_file_returns:
  assumes "files s old_file = Some fo" and "files s new_file = Some fn"
  shows "\<exists>b s'. deploy_file file_type old_file new_file s = (Inr b, s')"
proof (cases "filecmp_cmp old_file new_file s = Inr True")
  case True
  then have "deploy_file file_type old_file new_file s = (Inr False, s)"
    by (simp add: deploy_file_def)
  then show ?thesis by blast
next
  case False
  with assms have c: "filecmp_cmp old_file new_file s = Inr False"
    by (auto simp: filecmp_cmp_def os_stat_def)
  with assms have ne: "new_file \<noteq> old_file"
    by (auto simp: filecmp_cmp_def os_stat_def split: if_splits)
  have "\<exists>s'. deploy_file file_type old_file new_file s = (Inr True, s')"
    using assms c ne
    by (simp add: deploy_file_def os_stat_def os_rename_def shutil_copy_def
        os_chown_def os_chmod_def Let_def)
  then show ?thesis by blast
qed

lemma deploy_body_Inl_iff:
  assumes "file_type \<in> fst ` set location"
  shows "deploy_body domain location file_type deployed s = (Inl e, s') \<longleftrightarrow>
     s' = s \<and>
     ((\<not> os_path_exists s (LETSENCRYPT_ROOT domain file_type) \<and>
        e = SystemExit (ERROR (''new '' @ file_type) (LETSENCRYPT_ROOT domain file_type))) \<or>
      (os_path_exists s (LETSENCRYPT_ROOT domain file_type) \<and>
        (\<exists>old_file. map_of location file_type = Some old_file \<and> \<not> os_path_exists s old_file \<and>
           e = SystemExit (ERROR (''old '' @ file_type) old_file))))"
proof -
  from assms obtain old_file where m: "map_of location file_type = Some old_file"
    by (metis domIff dom_map_of_conv_image_fst not_Some_eq)
  show ?thesis
  proof (cases "os_path_exists s (LETSENCRYPT_ROOT domain file_type) \<and> os_path_exists s old_file")
    case True
    then obtain fo fn where "files s old_file = Some fo" "files s (LETSENCRYPT_ROOT domain file_type) = Some fn"
      by (auto simp: os_path_exists_def)
    then obtain b t where "deploy_file file_type old_file (LETSENCRYPT_ROOT domain file_type) s = (Inr b, t)"
      using deploy_file_returns by blast
    with True m show ?thesis by (simp add: deploy_body_def Let_def)
  next
    case False
    with m show ?thesis by (auto simp: deploy_body_def Let_def)
  qed
qed

lemma steps_keys: "(location, file_type) \<in> set (steps config) \<Longrightarrow> file_type \<in> fst ` set location"
  by (auto simp: steps_def)

lemma deploy_domain_steps:
  "deploy_domain domain config s =
     for_each (\<lambda>(location, file_type). deploy_body domain location file_type) (steps config) False s"
  unfolding deploy_domain_def steps_def
  by (rule for_each_concat [where body = "deploy_body domain" and keys = "map fst"])

subsection \<open>The concrete runs\<close>

lemma ex_deploy_cert:
  "deploy_file ''cert'' ''/srv/cert.pem'' ''/etc/dehydrated/certs/example.com/cert.pem'' ex_os =
     (Inr True, ex_os\<lparr>files := (files ex_os)(''/srv/cert.pem'' := None,
         ''/srv/cert.pem.bak'' \<mapsto> ex_old_cert,
         ''/srv/cert.pem'' \<mapsto> ex_new_cert\<lparr>st_uid := 33, st_gid := 33, st_mode := 416, st_mtime := 100\<rparr>)\<rparr>)"
  by (simp add: deploy_file_def filecmp_cmp_def os_stat_def os_rename_def shutil_copy_def
      os_chown_def os_chmod_def sig_def ex_os_def ex_old_cert_def ex_new_cert_def Let_def)

lemma ex_deploy_cert':
  "deploy_file ''cert'' ''/srv/cert.pem'' ''/etc/dehydrated/certs/example.com/cert.pem'' ex_os =
     (Inr True, ex_os_after)"
  by (simp add: ex_deploy_cert ex_os_after_def)

lemma ex_deploy_domain:
  "deploy_domain ''example.com'' [ex_location] ex_os =
     (Inl (SystemExit (ERROR ''old privkey'' ''/srv/privkey.pem'')), ex_os_after)"
proof -
  have e1: "os_path_exists ex_os ''/etc/dehydrated/certs/example.com/cert.pem''"
    "os_path_exists ex_os ''/srv/cert.pem''"
    by (simp_all add: os_path_exists_def ex_os_def)
  have b1: "deploy_body ''example.com'' ex_location ''cert'' False ex_os = (Inr True, ex_os_after)"
    using e1 by (simp add: deploy_body_def LETSENCRYPT_ROOT_def ex_location_def ex_deploy_cert')
  have b2: "deploy_body ''example.com'' ex_location ''privkey'' True ex_os_after =
     (Inl (SystemExit (ERROR ''old privkey'' ''/srv/privkey.pem'')), ex_os_after)"
    by (simp add: deploy_body_def LETSENCRYPT_ROOT_def ex_location_def os_path_exists_def
        ex_os_after_def ex_os_def)
  show ?thesis
    using b1 b2 by (simp add: deploy_domain_def ex_location_def)
qed

subsection \<open>Absent files and partial deployment\<close>

text \<open>
  Claim C1 says that \<open>deploy_domain\<close> changes no file when any required file of the domain
  is absent. The code checks the two files of a pair just before it deploys that pair, so the
  pairs visited earlier are already deployed when a later one is found incomplete: with the
  destination of \<open>privkey\<close> absent, the run below exits, and \<open>/srv/cert.pem\<close> is replaced and
  its backup written all the same.
\<close>

theorem deploy_domain_partial_counterexample:
  "\<not> os_path_exists ex_os ''/srv/privkey.pem'' \<and>
   deploy_domain ''example.com'' [ex_location] ex_os =
     (Inl (SystemExit (ERROR ''old privkey'' ''/srv/privkey.pem'')), ex_os_after) \<and>
   files ex_os ''/srv/cert.pem.bak'' = None \<and>
   files ex_os_after ''/srv/cert.pem.bak'' = Some ex_old_cert \<and>
   map_option content (files ex_os ''/srv/cert.pem'') = Some ''OLD CERT'' \<and>
   map_option content (files ex_os_after ''/srv/cert.pem'') = Some ''NEW CERTIFICATE''"
  using ex_deploy_domain
  by (simp add: os_path_exists_def ex_os_def ex_os_after_def ex_old_cert_def ex_new_cert_def)

text \<open>
  Claim C1, as the code has it: \<open>deploy_domain\<close> exits exactly when some pair, in the order
  of the loops, has its new file or its old file absent in the state reached by deploying the
  pairs before it; it exits with that state, so nothing is changed for that pair or a later
  one, and with the message naming the absent file. When the first pair is the incomplete
  one, the state reached is the initial state and no file is changed at all.
\<close>

theorem deploy_domain_exit_at_first_absent:
  "deploy_domain domain config s = (Inl e, s') \<longleftrightarrow>
     (\<exists>pre location file_type post deployed.
        steps config = pre @ (location, file_type) # post \<and>
        for_each (\<lambda>(l, t). deploy_body domain l t) pre False s = (Inr deployed, s') \<and>
        ((\<not> os_path_exists s' (LETSENCRYPT_ROOT domain file_type) \<and>
            e = SystemExit (ERROR (''new '' @ file_type) (LETSENCRYPT_ROOT domain file_type))) \<or>
         (os_path_exists s' (LETSENCRYPT_ROOT domain file_type) \<and>
            (\<exists>old_file. map_of location file_type = Some old_file \<and>
               \<not> os_path_exists s' old_file \<and>
               e = SystemExit (ERROR (''old '' @ file_type) old_file)))))"
  (is "?L \<longleftrightarrow> ?R")
proof
  assume ?L
  then obtain pre x post v1 s1 where
    *: "steps config = pre @ x # post"
       "for_each (\<lambda>(l, t). deploy_body domain l t) pre False s = (Inr v1, s1)"
       "(\<lambda>(l, t). deploy_body domain l t) x v1 s1 = (Inl e, s')"
    unfolding deploy_domain_steps for_each_Inl_iff by blast
  obtain location file_type where x: "x = (location, file_type)" by (cases x)
  with * have k: "file_type \<in> fst ` set location"
    using steps_keys [of location file_type config] by simp
  from * x have "deploy_body domain location file_type v1 s1 = (Inl e, s')" by simp
  then have **: "s' = s1 \<and>
     ((\<not> os_path_exists s1 (LETSENCRYPT_ROOT domain file_type) \<and>
        e = SystemExit (ERROR (''new '' @ file_type) (LETSENCRYPT_ROOT domain file_type))) \<or>
      (os_path_exists s1 (LETSENCRYPT_ROOT domain file_type) \<and>
        (\<exists>old_file. map_of location file_type = Some old_file \<and> \<not> os_path_exists s1 old_file \<and>
           e = SystemExit (ERROR (''old '' @ file_type) old_file))))"
    using deploy_body_Inl_iff [OF k] by simp
  with * x show ?R by blast
next
  assume ?R
  then obtain pre location file_type post deployed where
    *: "steps config = pre @ (location, file_type) # post"
       "for_each (\<lambda>(l, t). deploy_body domain l t) pre False s = (Inr deployed, s')"
       "(\<not> os_path_exists s' (LETSENCRYPT_ROOT domain file_type) \<and>
            e = SystemExit (ERROR (''new '' @ file_type) (LETSENCRYPT_ROOT domain file_type))) \<or>
         (os_path_exists s' (LETSENCRYPT_ROOT domain file_type) \<and>
            (\<exists>old_file. map_of location file_type = Some old_file \<and>
               \<not> os_path_exists s' old_file \<and>
               e = SystemExit (ERROR (''old '' @ file_type) old_file)))"
    by blast
  have k: "file_type \<in> fst ` set location"
    using steps_keys [of location file_type config] * by simp
  have "deploy_body domain location file_type deployed s' = (Inl e, s')"
    using deploy_body_Inl_iff [OF k, of domain deployed s' e s'] *(3) by blast
  with *(1,2) show ?L
    unfolding deploy_domain_steps for_each_Inl_iff by force
qed

theorem deploy_domain_exit_at_first_absent_witness:
  "\<exists>pre location file_type post deployed.
     steps [ex_location] = pre @ (location, file_type) # post \<and>
     for_each (\<lambda>(l, t). deploy_body ''example.com'' l t) pre False ex_os = (Inr deployed, ex_os_after)"
  using deploy_domain_exit_at_first_absent [THEN iffD1, OF ex_deploy_domain] by blast

subsection \<open>Replacing one file\<close>

text \<open>
  Claim C3 says that \<open>deploy_file\<close> returns true whenever the contents of the two files
  differ. The comparison is the shallow one: two files of the same size and modification time
  are taken for equal without being read. Below, \<open>OLD CERT\<close> and \<open>NEW CERT\<close> have eight
  bytes each and the same modification time; \<open>deploy_file\<close> returns false and changes
  nothing.
\<close>

theorem deploy_file_shallow_counterexample:
  "files ex_os2 ''/srv/cert.pem'' = Some ex_old_cert \<and>
   files ex_os2 ''/new/cert.pem'' = Some ex_same_sig \<and>
   content ex_old_cert = ''OLD CERT'' \<and> content ex_same_sig = ''NEW CERT'' \<and>
   deploy_file ''cert'' ''/srv/cert.pem'' ''/new/cert.pem'' ex_os2 = (Inr False, ex_os2)"
  by (simp add: deploy_file_def filecmp_cmp_def os_stat_def sig_def ex_os2_def
      ex_old_cert_def ex_same_sig_def)

text \<open>
  Claim C3, as the code has it: when the contents differ and the stat signatures (size,
  modification time) differ too, \<open>deploy_file\<close> returns true, and afterwards
  \<open>old_file.bak\<close> is the original file with its content and metadata, the content at
  \<open>old_file\<close> is the content at \<open>new_file\<close> (the new file itself is untouched unless it is
  the backup path), and owner, group and mode at \<open>old_file\<close> are those of the original.
\<close>

theorem deploy_file_replaces:
  assumes old: "files s old_file = Some fo"
      and new: "files s new_file = Some fn"
      and differ: "content fo \<noteq> content fn"
      and sigs: "sig fo \<noteq> sig fn"
  shows "\<exists>s' g n.
           deploy_file file_type old_file new_file s = (Inr True, s') \<and>
           files s' (old_file @ ''.bak'') = Some fo \<and>
           files s' old_file = Some g \<and>
           files s' new_file = Some n \<and>
           content g = content n \<and>
           (new_file \<noteq> old_file @ ''.bak'' \<longrightarrow> n = fn) \<and>
           st_uid g = st_uid fo \<and> st_gid g = st_gid fo \<and> st_mode g = st_mode fo"
proof -
  from old new differ have ne: "new_file \<noteq> old_file" by auto
  from old new differ sigs have c: "filecmp_cmp old_file new_file s = Inr False"
    by (simp add: filecmp_cmp_def os_stat_def)
  define src where "src = (if new_file = old_file @ ''.bak'' then fo else fn)"
  define g where "g = \<lparr>content = content src, st_uid = st_uid fo, st_gid = st_gid fo,
                        st_mode = st_mode fo, st_mtime = clock s\<rparr>"
  define s' where "s' = s\<lparr>files := (files s)(old_file := None, old_file @ ''.bak'' \<mapsto> fo,
                                             old_file \<mapsto> g)\<rparr>"
  have r: "os_rename old_file (old_file @ ''.bak'') s =
             Inr (s\<lparr>files := (files s)(old_file := None, old_file @ ''.bak'' \<mapsto> fo)\<rparr>)"
    using old by (simp add: os_rename_def)
  have run: "deploy_file file_type old_file new_file s = (Inr True, s')"
    using old new ne c r
    by (simp add: deploy_file_def os_stat_def shutil_copy_def os_chown_def os_chmod_def
        Let_def s'_def g_def src_def)
  have "files s' (old_file @ ''.bak'') = Some fo" by (simp add: s'_def)
  moreover have "files s' old_file = Some g" by (simp add: s'_def)
  moreover have "files s' new_file = Some src"
    using ne new by (simp add: s'_def src_def)
  moreover have "content g = content src" by (simp add: g_def)
  moreover have "new_file \<noteq> old_file @ ''.bak'' \<longrightarrow> src = fn" by (simp add: src_def)
  moreover have "st_uid g = st_uid fo \<and> st_gid g = st_gid fo \<and> st_mode g = st_mode fo"
    by (simp add: g_def)
  ultimately show ?thesis using run by blast
qed

theorem deploy_file_replaces_witness:
  "\<exists>s' g n.
     deploy_file ''cert'' ''/srv/cert.pem'' ''/etc/dehydrated/certs/example.com/cert.pem'' ex_os = (Inr True, s') \<and>
     files s' ''/srv/cert.pem.bak'' = Some ex_old_cert \<and>
     files s' ''/srv/cert.pem'' = Some g \<and>
     files s' ''/etc/dehydrated/certs/example.com/cert.pem'' = Some n \<and>
     content g = content n \<and> n = ex_new_cert \<and>
     st_uid g = 33 \<and> st_gid g = 33 \<and> st_mode g = 416"
proof -
  have old: "files ex_os ''/srv/cert.pem'' = Some ex_old_cert"
    and new: "files ex_os ''/etc/dehydrated/certs/example.com/cert.pem'' = Some ex_new_cert"
    by (simp_all add: ex_os_def)
  have differ: "content ex_old_cert \<noteq> content ex_new_cert"
    and sigs: "sig ex_old_cert \<noteq> sig ex_new_cert"
    by (simp_all add: ex_old_cert_def ex_new_cert_def sig_def)
  have m: "st_uid ex_old_cert = 33" "st_gid ex_old_cert = 33" "st_mode ex_old_cert = 416"
    by (simp_all add: ex_old_cert_def)
  show ?thesis
    using deploy_file_replaces [OF old new differ sigs, of "''cert''"] m by simp
qed

subsection \<open>Post-deployment actions\<close>

lemma launched_deploy_file: "launched (snd (deploy_file file_type old_file new_file s)) = launched s"
  by (auto simp: deploy_file_def os_rename_def shutil_copy_def os_chown_def os_chmod_def Let_def
      split: sum.splits bool.splits option.splits if_splits)

lemma launched_deploy_body:
  "launched (snd (deploy_body domain location file_type deployed s)) = launched s"
proof -
  have "launched (snd (case deploy_file file_type old_file new_file s of
                         (Inl e, s') \<Rightarrow> (Inl e, s')
                       | (Inr deploy_success, s') \<Rightarrow>
                           (Inr (if deploy_success then True else deployed), s'))) = launched s"
    for old_file new_file
    using launched_deploy_file [of file_type old_file new_file s]
    by (cases "deploy_file file_type old_file new_file s") (auto split: sum.splits)
  then show ?thesis
    by (simp add: deploy_body_def Let_def split: option.splits)
qed

lemma launched_deploy_domain: "launched (snd (deploy_domain domain config s)) = launched s"
  unfolding deploy_domain_def
  by (rule for_each_preserves, rule for_each_preserves, rule launched_deploy_body)

lemma launched_domain_body:
  "launched (snd (domain_body cfg domain saw s)) = launched s"
proof (cases "map_of (domains cfg) domain")
  case None
  then show ?thesis by (simp add: domain_body_def)
next
  case (Some locations)
  show ?thesis
  proof (cases "deploy_domain domain locations s")
    case (Pair r t)
    with launched_deploy_domain [of domain locations s] have "launched t = launched s" by simp
    with Some Pair show ?thesis by (cases r) (simp_all add: domain_body_def)
  qed
qed

lemma launched_run_actions:
  "for_each run_action actions () s = (Inr (), s\<lparr>launched := launched s @ actions\<rparr>)"
  by (induction actions arbitrary: s) (simp_all add: run_action_def)

lemma domains_loop_reports:
  "fst (for_each (domain_body cfg) ds v s) =
     (case find isl (reports cfg ds s) of
        Some r \<Rightarrow> Inl (projl r)
      | None \<Rightarrow> Inr (v \<or> Inr True \<in> set (reports cfg ds s)))"
proof (induction ds arbitrary: v s)
  case Nil
  show ?case by simp
next
  case (Cons d ds)
  show ?case
  proof (cases "map_of (domains cfg) d")
    case None
    then show ?thesis by (simp add: domain_body_def)
  next
    case (Some locations)
    show ?thesis
    proof (cases "deploy_domain d locations s")
      case (Pair r t)
      show ?thesis
      proof (cases r)
        case (Inl e)
        with Some Pair show ?thesis by (simp add: domain_body_def)
      next
        case (Inr b)
        with Some Pair Cons.IH [of "if b then True else v" t] show ?thesis
          by (auto simp: domain_body_def split: option.splits)
      qed
    qed
  qed
qed

lemma ex_conf_deploy_domain:
  "deploy_domain ''example.com'' [[(''cert'', ''/srv/cert.pem'')]] ex_os_conf = (Inr True, ex_os_conf_after)"
  by (simp add: deploy_domain_def deploy_body_def LETSENCRYPT_ROOT_def os_path_exists_def
      deploy_file_def filecmp_cmp_def os_stat_def os_rename_def shutil_copy_def
      os_chown_def os_chmod_def sig_def ex_os_conf_def ex_conf_def ex_os_def ex_old_cert_def
      ex_new_cert_def ex_os_conf_after_def Let_def)

lemma ex_conf_deploy_domain_org:
  "deploy_domain ''example.org'' [[(''cert'', ''/srv/org.pem'')]] ex_os_conf_after =
     (Inl (SystemExit (ERROR ''new cert'' ''/etc/dehydrated/certs/example.org/cert.pem'')), ex_os_conf_after)"
  by (simp add: deploy_domain_def deploy_body_def LETSENCRYPT_ROOT_def os_path_exists_def
      ex_os_conf_after_def ex_os_conf_def ex_conf_def ex_os_def)

lemma ex_parse_one: "parse_config ex_conf ex_yaml_one ex_os_conf = Inr ex_cfg_one"
  by (simp add: parse_config_def ex_os_conf_def ex_yaml_one_def)

lemma ex_parse_two: "parse_config ex_conf ex_yaml_two ex_os_conf = Inr ex_cfg_two"
  by (simp add: parse_config_def ex_os_conf_def ex_yaml_two_def)

lemma ex_reports_one:
  "reports ex_cfg_one [''example.com''] ex_os_conf = [Inr True]"
  by (simp add: ex_cfg_one_def ex_conf_deploy_domain)

lemma ex_reports_two:
  "reports ex_cfg_two [''example.com'', ''example.org''] ex_os_conf =
     [Inr True, Inl (SystemExit (ERROR ''new cert'' ''/etc/dehydrated/certs/example.org/cert.pem''))]"
  by (simp add: ex_cfg_two_def ex_conf_deploy_domain ex_conf_deploy_domain_org)

lemma ex_run_two:
  "run_deployment ex_conf ex_yaml_two ex_os_conf =
     (Inl (SystemExit (ERROR ''new cert'' ''/etc/dehydrated/certs/example.org/cert.pem'')), ex_os_conf_after)"
proof -
  have d: "map fst (domains ex_cfg_two) = [''example.com'', ''example.org'']"
    by (simp add: ex_cfg_two_def)
  have b1: "domain_body ex_cfg_two ''example.com'' False ex_os_conf = (Inr True, ex_os_conf_after)"
    by (simp add: domain_body_def ex_cfg_two_def ex_conf_deploy_domain)
  have b2: "domain_body ex_cfg_two ''example.org'' True ex_os_conf_after =
     (Inl (SystemExit (ERROR ''new cert'' ''/etc/dehydrated/certs/example.org/cert.pem'')), ex_os_conf_after)"
    by (simp add: domain_body_def ex_cfg_two_def ex_conf_deploy_domain_org)
  show ?thesis
    by (simp add: run_deployment_def ex_parse_two d b1 b2)
qed

text \<open>
  Claim C6 says that the post-deployment actions run if and only if some domain reported a
  change. A later domain with an absent file ends the run by \<^verbatim>\<open>sys.exit\<close> before the
  actions: below \<open>example.com\<close> reports a change, \<open>example.org\<close> exits, and no action is
  launched although one is configured.
\<close>

theorem run_deployment_exit_counterexample:
  "reports ex_cfg_two [''example.com'', ''example.org''] ex_os_conf =
     [Inr True, Inl (SystemExit (ERROR ''new cert'' ''/etc/dehydrated/certs/example.org/cert.pem''))] \<and>
   post_actions ex_cfg_two = [''service nginx reload''] \<and>
   launched ex_os_conf = [] \<and>
   launched (snd (run_deployment ex_conf ex_yaml_two ex_os_conf)) = []"
  using ex_reports_two ex_run_two
  by (simp add: ex_cfg_two_def ex_os_conf_after_def ex_os_conf_def ex_os_def)

text \<open>
  Claim C6, as the code has it: once the configuration is read, the actions launched by
  \<open>run_deployment\<close> are all the configured ones, in order, when some domain reported a change
  and no domain raised an exception, and none otherwise; in particular none when every
  domain reports no change.
\<close>

theorem run_deployment_actions:
  assumes "parse_config CONFIG_FILE yaml_load s = Inr cfg"
  shows "launched (snd (run_deployment CONFIG_FILE yaml_load s)) =
           launched s @
             (if Inr True \<in> set (reports cfg (map fst (domains cfg)) s) \<and>
                 find isl (reports cfg (map fst (domains cfg)) s) = None
              then post_actions cfg else [])"
proof (cases "for_each (domain_body cfg) (map fst (domains cfg)) False s")
  case (Pair r t)
  have t: "launched t = launched s"
    using for_each_preserves [of launched "domain_body cfg", OF launched_domain_body,
        of "map fst (domains cfg)" False s] Pair by simp
  have r: "r = (case find isl (reports cfg (map fst (domains cfg)) s) of
        Some r \<Rightarrow> Inl (projl r)
      | None \<Rightarrow> Inr (Inr True \<in> set (reports cfg (map fst (domains cfg)) s)))"
  proof -
    from Pair have "fst (for_each (domain_body cfg) (map fst (domains cfg)) False s) = r"
      by simp
    then show ?thesis
      unfolding domains_loop_reports by (auto split: option.splits)
  qed
  show ?thesis
  proof (cases r)
    case (Inl e)
    with r have "find isl (reports cfg (map fst (domains cfg)) s) \<noteq> None"
      by (auto split: option.splits)
    with Inl Pair assms t show ?thesis by (auto simp: run_deployment_def)
  next
    case (Inr saw)
    with r have n: "find isl (reports cfg (map fst (domains cfg)) s) = None"
      and saw: "saw = (Inr True \<in> set (reports cfg (map fst (domains cfg)) s))"
      by (auto split: option.splits)
    with Inr Pair assms t show ?thesis
      by (simp add: run_deployment_def launched_run_actions)
  qed
qed

theorem run_deployment_actions_witness:
  "launched (snd (run_deployment ex_conf ex_yaml_one ex_os_conf)) = [''service nginx reload'']"
proof -
  have d: "map fst (domains ex_cfg_one) = [''example.com'']"
    by (simp add: ex_cfg_one_def)
  have l: "launched ex_os_conf = []"
    by (simp add: ex_os_conf_def ex_os_def)
  have p: "post_actions ex_cfg_one = [''service nginx reload'']"
    by (simp add: ex_cfg_one_def)
  show ?thesis
    using run_deployment_actions [OF ex_parse_one] unfolding d ex_reports_one l p by simp
qed

section \<open>hook.py: properties\<close>

subsection \<open>One poll\<close>

lemma has_dns_propagated_frame:
  "trace (snd (has_dns_propagated resolver record_name val st)) = trace st"
  "provider (snd (has_dns_propagated resolver record_name val st)) = provider st"
  "heap (snd (has_dns_propagated resolver record_name val st)) = heap st"
  "dns_queries (snd (has_dns_propagated resolver record_name val st)) = dns_queries st + 1"
  by (auto simp: has_dns_propagated_def Let_def split: sum.splits dns_exception.splits)

lemma has_dns_propagated_counter:
  "DNS_COUNTER (snd (has_dns_propagated resolver record_name val st)) =
     DNS_COUNTER st + (if confirming resolver record_name val (dns_queries st) then 1 else 0)"
  by (auto simp: has_dns_propagated_def confirming_def Let_def split: sum.splits dns_exception.splits)

lemma has_dns_propagated_result:
  "fst (has_dns_propagated resolver record_name val st) =
     (confirming resolver record_name val (dns_queries st) \<and> DNS_COUNTER st = 2)"
  by (auto simp: has_dns_propagated_def confirming_def Let_def split: sum.splits dns_exception.splits)

lemma time_sleep_simps [simp]:
  "DNS_COUNTER (time_sleep n st) = DNS_COUNTER st"
  "dns_queries (time_sleep n st) = dns_queries st"
  "provider (time_sleep n st) = provider st"
  "heap (time_sleep n st) = heap st"
  "trace (time_sleep n st) = trace st @ [Sleep n]"
  by (simp_all add: time_sleep_def)

subsection \<open>The loop\<close>

lemma poll_Suc:
  "poll (Suc n) resolver record_name token st =
     (if fst (has_dns_propagated resolver record_name token st)
      then (Some (), snd (has_dns_propagated resolver record_name token st))
      else poll n resolver record_name token
             (time_sleep 30 (snd (has_dns_propagated resolver record_name token st))))"
  by (cases "has_dns_propagated resolver record_name token st") auto

lemma poll_stuck:
  "3 \<le> DNS_COUNTER st \<Longrightarrow> fst (poll n resolver record_name token st) = None"
proof (induction n arbitrary: st)
  case 0
  show ?case by simp
next
  case (Suc n)
  obtain b st' where h: "has_dns_propagated resolver record_name token st = (b, st')"
    by (cases "has_dns_propagated resolver record_name token st")
  from h Suc.prems have nb: "\<not> b"
    using has_dns_propagated_result [of resolver record_name token st] by simp
  from h Suc.prems have "3 \<le> DNS_COUNTER st'"
    using has_dns_propagated_counter [of resolver record_name token st] by simp
  then have "3 \<le> DNS_COUNTER (time_sleep 30 st')" by simp
  from Suc.IH [OF this] h nb show ?case by simp
qed

lemma poll_returns_iff:
  "fst (poll n resolver record_name token st) = Some () \<longleftrightarrow>
     (\<exists>k<n. confirming resolver record_name token (dns_queries st + k) \<and>
        DNS_COUNTER st +
          int (length (filter (confirming resolver record_name token)
                 [dns_queries st ..< dns_queries st + k + 1])) = 3)"
proof (induction n arbitrary: st)
  case 0
  show ?case by simp
next
  case (Suc n)
  let ?c = "confirming resolver record_name token"
  let ?q = "dns_queries st"
  obtain b st' where h: "has_dns_propagated resolver record_name token st = (b, st')"
    by (cases "has_dns_propagated resolver record_name token st")
  have b: "b = (?c ?q \<and> DNS_COUNTER st = 2)"
    using has_dns_propagated_result [of resolver record_name token st] h by simp
  have c': "DNS_COUNTER st' = DNS_COUNTER st + (if ?c ?q then 1 else 0)"
    using has_dns_propagated_counter [of resolver record_name token st] h by simp
  have q': "dns_queries st' = ?q + 1"
    using has_dns_propagated_frame(4) [of resolver record_name token st] h by simp
  have split: "(\<exists>k<Suc n. P k) \<longleftrightarrow> P 0 \<or> (\<exists>j<n. P (Suc j))" for P
    by (metis less_Suc_eq_0_disj)
  have upt: "[?q ..< ?q + Suc j + 1] = ?q # [?q + 1 ..< ?q + 1 + j + 1]" for j
    by (simp add: upt_conv_Cons)
  show ?case
  proof (cases b)
    case True
    with h b show ?thesis
      by (auto simp: split intro!: exI [of _ 0])
  next
    case False
    with h have "fst (poll (Suc n) resolver record_name token st) =
                 fst (poll n resolver record_name token (time_sleep 30 st'))" by simp
    also have "\<dots> = Some () \<longleftrightarrow>
        (\<exists>j<n. ?c (?q + 1 + j) \<and>
           DNS_COUNTER st' + int (length (filter ?c [?q + 1 ..< ?q + 1 + j + 1])) = 3)"
      using Suc.IH [of "time_sleep 30 st'"] by (simp add: q')
    also have "\<dots> \<longleftrightarrow>
        (\<exists>k<Suc n. ?c (?q + k) \<and> DNS_COUNTER st + int (length (filter ?c [?q ..< ?q + k + 1])) = 3)"
      unfolding split upt
      using False b by (auto simp: c')
    finally show ?thesis .
  qed
qed

subsection \<open>Requests\<close>

lemma provider_calls_simps [simp]:
  "provider_calls [] = []"
  "provider_calls (evs @ evs') = provider_calls evs @ provider_calls evs'"
  "provider_calls (HttpGet url params # evs) = params # provider_calls evs"
  "provider_calls (Sleep n # evs) = provider_calls evs"
  by (simp_all add: provider_calls_def)

lemma setitem_simps [simp]:
  "heap (setitem d k v st) = (heap st)(d := AList.update k v (heap st d))"
  "trace (setitem d k v st) = trace st"
  "provider (setitem d k v st) = provider st"
  "DNS_COUNTER (setitem d k v st) = DNS_COUNTER st"
  "dns_queries (setitem d k v st) = dns_queries st"
  by (simp_all add: setitem_def)

lemma requests_get_simps [simp]:
  "heap (snd (requests_get url params st)) = heap st"
  "trace (snd (requests_get url params st)) = trace st @ [HttpGet url params]"
  "provider (snd (requests_get url params st)) = snd (dreamhost params (provider st))"
  "DNS_COUNTER (snd (requests_get url params st)) = DNS_COUNTER st"
  "dns_queries (snd (requests_get url params st)) = dns_queries st"
  by (simp_all add: requests_get_def)

lemma dreamhost_list:
  "map_of params ''cmd'' = Some ''dns-list_records'' \<Longrightarrow> dreamhost params store = (Listing store, store)"
  by (simp add: dreamhost_def)

lemma record_exists_eq:
  "record_exists record_name st =
     (Inr (map_option item_value (find (\<lambda>i. item_record i = record_name) (provider st))),
      st\<lparr>heap := (heap st)(HOST_API_PARAMS := list_params st),
         trace := trace st @ [HttpGet HOST_API_ROOT (list_params st)]\<rparr>)"
proof -
  have c: "map_of (list_params st) ''cmd'' = Some ''dns-list_records''"
    by (simp add: list_params_def update_conv')
  show ?thesis
    by (simp add: record_exists_def requests_get_def setitem_def Let_def dreamhost_list [OF c]
        list_params_def [symmetric] split: option.splits)
qed

lemma add_record_simps:
  "heap (snd (add_record record_name val st)) HOST_API_PARAMS =
     AList.update ''value'' val (AList.update ''type'' ''TXT'' (AList.update ''record'' record_name
       (AList.update ''cmd'' ''dns-add_record'' (heap st HOST_API_PARAMS))))"
  "trace (snd (add_record record_name val st)) =
     trace st @ [HttpGet HOST_API_ROOT (heap (snd (add_record record_name val st)) HOST_API_PARAMS)]"
  "DNS_COUNTER (snd (add_record record_name val st)) = DNS_COUNTER st"
  "dns_queries (snd (add_record record_name val st)) = dns_queries st"
  by (simp_all add: add_record_def Let_def)

lemma remove_record_simps:
  "heap (snd (remove_record record_name val st)) HOST_API_PARAMS =
     AList.update ''value'' val (AList.update ''type'' ''TXT'' (AList.update ''record'' record_name
       (AList.update ''cmd'' ''dns-remove_record'' (heap st HOST_API_PARAMS))))"
  "trace (snd (remove_record record_name val st)) =
     trace st @ [HttpGet HOST_API_ROOT (heap (snd (remove_record record_name val st)) HOST_API_PARAMS)]"
  "DNS_COUNTER (snd (remove_record record_name val st)) = DNS_COUNTER st"
  "dns_queries (snd (remove_record record_name val st)) = dns_queries st"
  by (simp_all add: remove_record_def Let_def)

lemma poll_frame:
  "provider_calls (trace (snd (poll n resolver record_name token st))) = provider_calls (trace st) \<and>
   provider (snd (poll n resolver record_name token st)) = provider st \<and>
   heap (snd (poll n resolver record_name token st)) = heap st"
proof (induction n arbitrary: st)
  case 0
  show ?case by simp
next
  case (Suc n)
  show ?case
    unfolding poll_Suc
    using Suc.IH [of "time_sleep 30 (snd (has_dns_propagated resolver record_name token st))"]
    by (simp add: has_dns_propagated_frame)
qed

lemma deploy_challenge_eq:
  "deploy_challenge n resolver (domain # a1 # token # rest) st =
     (let record_name = DNS_PREFIX @ ''.'' @ domain;
          st1 = snd (record_exists record_name st);
          st2 = (case find (\<lambda>i. item_record i = record_name) (provider st) of
                   Some i \<Rightarrow> time_sleep 10 (snd (remove_record record_name (item_value i) st1))
                 | None \<Rightarrow> st1);
          st3 = time_sleep 10 (snd (add_record record_name token st2))
      in (Inr (fst (poll n resolver record_name token st3)),
          snd (poll n resolver record_name token st3)))"
  by (simp add: deploy_challenge_def record_exists_eq Let_def split: option.splits prod.splits)

lemma deploy_challenge_returns_iff:
  "fst (deploy_challenge n resolver (domain # a1 # token # rest) st) = Inr (Some ()) \<longleftrightarrow>
     (\<exists>k<n. confirming resolver (DNS_PREFIX @ ''.'' @ domain) token (dns_queries st + k) \<and>
        DNS_COUNTER st +
          int (length (filter (confirming resolver (DNS_PREFIX @ ''.'' @ domain) token)
                 [dns_queries st ..< dns_queries st + k + 1])) = 3)"
  by (simp add: deploy_challenge_eq Let_def poll_returns_iff record_exists_eq add_record_simps
        remove_record_simps split: option.splits)

subsection \<open>The concrete runs\<close>

lemma ex_confirming_iff:
  "confirming ex_resolver ex_record ''tokenABC'' q \<longleftrightarrow> q \<noteq> 1"
  by (simp add: confirming_def ex_resolver_def slice_1_m1_def escapify_def escapify_char_def)

lemma ex_confirming:
  "confirming ex_resolver ex_record ''tokenABC'' 0"
  "\<not> confirming ex_resolver ex_record ''tokenABC'' 1"
  "confirming ex_resolver ex_record ''tokenABC'' 2"
  "confirming ex_resolver ex_record ''tokenABC'' 3"
  by (simp_all add: ex_confirming_iff)

lemma ex_poll:
  "fst (poll 3 ex_resolver ex_record ''tokenABC'' ex_hook) = None"
  "fst (poll 4 ex_resolver ex_record ''tokenABC'' ex_hook) = Some ()"
  by (simp_all add: poll_Suc numeral_eq_Suc has_dns_propagated_result has_dns_propagated_counter
      has_dns_propagated_frame ex_confirming_iff ex_hook_def del: poll.simps(2))

lemma ex_deploy_challenge:
  "fst (deploy_challenge 3 ex_resolver ex_args ex_hook) = Inr None"
  "fst (deploy_challenge 4 ex_resolver ex_args ex_hook) = Inr (Some ())"
  by (simp_all add: ex_args_def deploy_challenge_eq Let_def record_exists_eq add_record_simps
      DNS_PREFIX_def ex_record_def [symmetric]
      poll_Suc numeral_eq_Suc has_dns_propagated_result has_dns_propagated_counter
      has_dns_propagated_frame ex_confirming_iff ex_hook_def del: poll.simps(2))

subsection \<open>Resolver failures\<close>

text \<open>
  Claim C4: a resolver exception in a poll is caught inside \<open>has_dns_propagated\<close>, which
  returns false as an ordinary result and leaves \<open>DNS_COUNTER\<close> as it was (only the count of
  queries made moves on); the loop takes its pause and polls again.
\<close>

theorem resolver_failure_is_soft:
  assumes "resolver (dns_queries st) record_name = Inl e"
  shows "has_dns_propagated resolver record_name val st =
           (False, st\<lparr>dns_queries := dns_queries st + 1\<rparr>) \<and>
         DNS_COUNTER (snd (has_dns_propagated resolver record_name val st)) = DNS_COUNTER st \<and>
         poll (Suc n) resolver record_name val st =
           poll n resolver record_name val (time_sleep 30 (st\<lparr>dns_queries := dns_queries st + 1\<rparr>))"
  using assms by (simp add: has_dns_propagated_def split: dns_exception.splits)

theorem resolver_failure_is_soft_witness:
  "has_dns_propagated ex_resolver_fail ex_record ''tokenABC'' ex_hook_q1 =
     (False, ex_hook_q1\<lparr>dns_queries := 2\<rparr>) \<and>
   DNS_COUNTER (snd (has_dns_propagated ex_resolver_fail ex_record ''tokenABC'' ex_hook_q1)) = 1"
proof -
  have a: "ex_resolver_fail (dns_queries ex_hook_q1) ex_record = Inl DNSException"
    by (simp add: ex_resolver_fail_def ex_hook_q1_def)
  have q: "dns_queries ex_hook_q1 + 1 = 2" "DNS_COUNTER ex_hook_q1 = 1"
    by (simp_all add: ex_hook_q1_def)
  note r = resolver_failure_is_soft [where resolver = ex_resolver_fail and st = ex_hook_q1
      and record_name = ex_record and e = DNSException and val = "''tokenABC''" and n = 0, OF a]
  from r have "has_dns_propagated ex_resolver_fail ex_record ''tokenABC'' ex_hook_q1 =
     (False, ex_hook_q1\<lparr>dns_queries := dns_queries ex_hook_q1 + 1\<rparr>)"
    by blast
  moreover from r have
    "DNS_COUNTER (snd (has_dns_propagated ex_resolver_fail ex_record ''tokenABC'' ex_hook_q1)) =
       DNS_COUNTER ex_hook_q1"
    by blast
  ultimately show ?thesis
    unfolding q by simp
qed

subsection \<open>The threshold\<close>

text \<open>
  Claim C2 says that success needs three consecutive confirming polls and that a poll
  without the token starts the count over. Nothing in \<open>has_dns_propagated\<close> lowers the
  counter: below, the polls confirm, miss, confirm, confirm, and the loop, still running
  after three polls, is left at the fourth, whose two predecessors are a miss and a hit; so
  does \<open>deploy_challenge\<close> on the arguments \<open>example.com\<close>, unused, \<open>tokenABC\<close>.
\<close>

theorem no_restart_counterexample:
  "DNS_COUNTER ex_hook = 0 \<and> dns_queries ex_hook = 0 \<and>
   confirming ex_resolver ex_record ''tokenABC'' 0 \<and>
   \<not> confirming ex_resolver ex_record ''tokenABC'' 1 \<and>
   confirming ex_resolver ex_record ''tokenABC'' 2 \<and>
   confirming ex_resolver ex_record ''tokenABC'' 3 \<and>
   fst (poll 3 ex_resolver ex_record ''tokenABC'' ex_hook) = None \<and>
   fst (poll 4 ex_resolver ex_record ''tokenABC'' ex_hook) = Some () \<and>
   fst (deploy_challenge 3 ex_resolver ex_args ex_hook) = Inr None \<and>
   fst (deploy_challenge 4 ex_resolver ex_args ex_hook) = Inr (Some ())"
  using ex_confirming ex_poll ex_deploy_challenge by (simp add: ex_hook_def)

text \<open>
  Claim C2, as the code has it: in a run that starts with the counter at 0,
  \<open>deploy_challenge\<close> returns within \<open>n\<close> polls exactly when one of these polls is confirming
  and is the third confirming poll of the run, consecutive or not; polls without the token
  leave the count as it is.
\<close>

theorem returns_at_third_hit:
  assumes "DNS_COUNTER st = 0"
  shows "fst (deploy_challenge n resolver (domain # a1 # token # rest) st) = Inr (Some ()) \<longleftrightarrow>
           (\<exists>k<n. confirming resolver (DNS_PREFIX @ ''.'' @ domain) token (dns_queries st + k) \<and>
              length (filter (confirming resolver (DNS_PREFIX @ ''.'' @ domain) token)
                        [dns_queries st ..< dns_queries st + k + 1]) = 3)"
  using assms
  by (simp add: deploy_challenge_eq Let_def poll_returns_iff record_exists_eq add_record_simps
        remove_record_simps split: option.splits)

theorem returns_at_third_hit_witness:
  "DNS_COUNTER ex_hook = 0 \<and>
   (\<exists>k<4. confirming ex_resolver ex_record ''tokenABC'' k \<and>
      length (filter (confirming ex_resolver ex_record ''tokenABC'') [0 ..< k + 1]) = 3)"
proof -
  have c: "DNS_COUNTER ex_hook = 0" and q: "dns_queries ex_hook = 0"
    by (simp_all add: ex_hook_def)
  have r: "DNS_PREFIX @ ''.'' @ ''example.com'' = ex_record"
    by (simp add: DNS_PREFIX_def ex_record_def)
  note t = returns_at_third_hit [OF c, of 4 ex_resolver "''example.com''" "''unused''"
      "''tokenABC''" "[]", unfolded r q]
  from t ex_deploy_challenge(2) c show ?thesis
    by (simp add: ex_args_def)
qed

text \<open>
  Claim C10: success is tested by equality with 3 after an increment, and nothing ever
  lowers the counter. From a state whose counter is already 3 or more,
  \<open>has_dns_propagated\<close> returns false whatever the resolver answers, the counter stays at 3
  or more, and neither the loop nor \<open>deploy_challenge\<close> returns within any number of rounds.
\<close>

theorem stuck_at_three:
  assumes "3 \<le> DNS_COUNTER st"
  shows "\<not> fst (has_dns_propagated resolver record_name token st) \<and>
         3 \<le> DNS_COUNTER (snd (has_dns_propagated resolver record_name token st)) \<and>
         fst (poll n resolver record_name token st) = None \<and>
         fst (deploy_challenge n resolver (domain # a1 # token # rest) st) = Inr None"
proof -
  have "\<not> fst (has_dns_propagated resolver record_name token st)"
    using assms by (simp add: has_dns_propagated_result)
  moreover have "3 \<le> DNS_COUNTER (snd (has_dns_propagated resolver record_name token st))"
    using assms by (simp add: has_dns_propagated_counter)
  moreover have "fst (poll n resolver record_name token st) = None"
    using assms by (rule poll_stuck)
  moreover have "fst (deploy_challenge n resolver (domain # a1 # token # rest) st) = Inr None"
    using assms
    by (simp add: deploy_challenge_eq Let_def poll_stuck record_exists_eq add_record_simps
        remove_record_simps split: option.splits)
  ultimately show ?thesis by simp
qed

theorem stuck_at_three_witness:
  "\<not> fst (has_dns_propagated ex_resolver ex_record ''tokenABC'' ex_hook_done) \<and>
   fst (poll 5 ex_resolver ex_record ''tokenABC'' ex_hook_done) = None \<and>
   fst (deploy_challenge 5 ex_resolver ex_args ex_hook_done) = Inr None"
proof -
  have a: "3 \<le> DNS_COUNTER ex_hook_done" by (simp add: ex_hook_done_def)
  from stuck_at_three [OF a, of ex_resolver ex_record "''tokenABC''" 5 "''example.com''" "''unused''" "[]"]
  show ?thesis by (simp add: ex_args_def)
qed

subsection \<open>Provider calls of the challenge operations\<close>

text \<open>
  Claim C5: the requests \<open>deploy_challenge\<close> sends to the provider, whatever the number of
  polls that follow. With no record of the name \<open>_acme-challenge.domain\<close> at the provider
  they are the listing and one add carrying the token; with such a record they are the
  listing, one remove carrying the value of the (first) record found, then the add.
\<close>

theorem deploy_challenge_provider_calls:
  "case find (\<lambda>i. item_record i = ''_acme-challenge.'' @ domain) (provider st) of
     None \<Rightarrow>
       (\<exists>p_list p_add.
          provider_calls (trace (snd (deploy_challenge n resolver (domain # a1 # token # rest) st))) =
            provider_calls (trace st) @ [p_list, p_add] \<and>
          map_of p_list ''cmd'' = Some ''dns-list_records'' \<and>
          map_of p_add ''cmd'' = Some ''dns-add_record'' \<and>
          map_of p_add ''record'' = Some (''_acme-challenge.'' @ domain) \<and>
          map_of p_add ''value'' = Some token)
   | Some i \<Rightarrow>
       (\<exists>p_list p_remove p_add.
          provider_calls (trace (snd (deploy_challenge n resolver (domain # a1 # token # rest) st))) =
            provider_calls (trace st) @ [p_list, p_remove, p_add] \<and>
          map_of p_list ''cmd'' = Some ''dns-list_records'' \<and>
          map_of p_remove ''cmd'' = Some ''dns-remove_record'' \<and>
          map_of p_remove ''record'' = Some (''_acme-challenge.'' @ domain) \<and>
          map_of p_remove ''value'' = Some (item_value i) \<and>
          map_of p_add ''cmd'' = Some ''dns-add_record'' \<and>
          map_of p_add ''record'' = Some (''_acme-challenge.'' @ domain) \<and>
          map_of p_add ''value'' = Some token)"
proof (cases "find (\<lambda>i. item_record i = ''_acme-challenge.'' @ domain) (provider st)")
  case None
  then show ?thesis
    by (simp add: deploy_challenge_eq DNS_PREFIX_def Let_def poll_frame record_exists_eq
        add_record_simps list_params_def update_conv')
next
  case (Some i)
  then show ?thesis
    by (simp add: deploy_challenge_eq DNS_PREFIX_def Let_def poll_frame record_exists_eq
        add_record_simps remove_record_simps list_params_def update_conv')
qed

theorem deploy_challenge_provider_calls_witness:
  "\<exists>p_list p_remove p_add.
     provider_calls (trace (snd (deploy_challenge 4 ex_resolver ex_args ex_hook_stale))) =
       [p_list, p_remove, p_add] \<and>
     map_of p_list ''cmd'' = Some ''dns-list_records'' \<and>
     map_of p_remove ''cmd'' = Some ''dns-remove_record'' \<and>
     map_of p_remove ''value'' = Some ''tokenOLD'' \<and>
     map_of p_add ''cmd'' = Some ''dns-add_record'' \<and>
     map_of p_add ''value'' = Some ''tokenABC''"
  using deploy_challenge_provider_calls [where domain = "''example.com''" and st = ex_hook_stale
      and n = 4 and resolver = ex_resolver and ?a1.0 = "''unused''" and token = "''tokenABC''"
      and rest = "[]"]
  by (simp add: ex_args_def ex_hook_stale_def ex_stale_def ex_hook_def) blast

text \<open>
  Claim C8: with no record of the name at the provider, \<open>clean_challenge\<close> sends the listing
  request and nothing else, and the provider's records are what they were.
\<close>

theorem clean_challenge_no_record:
  assumes "DNS_PREFIX @ ''.'' @ domain \<notin> item_record ` set (provider st)"
  shows "clean_challenge (domain # rest) st =
           (Inr (), st\<lparr>heap := (heap st)(HOST_API_PARAMS := list_params st),
                      trace := trace st @ [HttpGet HOST_API_ROOT (list_params st)]\<rparr>) \<and>
         provider_calls (trace (snd (clean_challenge (domain # rest) st))) =
           provider_calls (trace st) @ [list_params st] \<and>
         map_of (list_params st) ''cmd'' = Some ''dns-list_records'' \<and>
         provider (snd (clean_challenge (domain # rest) st)) = provider st"
proof -
  from assms have "find (\<lambda>i. item_record i = DNS_PREFIX @ ''.'' @ domain) (provider st) = None"
    by (auto simp: find_None_iff image_iff)
  then show ?thesis
    by (simp add: clean_challenge_def record_exists_eq Let_def list_params_def update_conv')
qed

theorem clean_challenge_no_record_witness:
  "provider_calls (trace (snd (clean_challenge [''example.com''] ex_hook))) =
     [[(''key'', ''SECRET''), (''format'', ''json''), (''cmd'', ''dns-list_records'')]] \<and>
   provider (snd (clean_challenge [''example.com''] ex_hook)) = provider ex_hook"
proof -
  have a: "DNS_PREFIX @ ''.'' @ ''example.com'' \<notin> item_record ` set (provider ex_hook)"
    by (simp add: ex_hook_def)
  have l: "list_params ex_hook = [(''key'', ''SECRET''), (''format'', ''json''), (''cmd'', ''dns-list_records'')]"
    by (simp add: list_params_def ex_hook_def)
  have t: "provider_calls (trace ex_hook) = []"
    by (simp add: ex_hook_def)
  note r = clean_challenge_no_record [OF a, of "[]"]
  from r have "provider_calls (trace (snd (clean_challenge [''example.com''] ex_hook))) =
      provider_calls (trace ex_hook) @ [list_params ex_hook]"
    by blast
  moreover from r have "provider (snd (clean_challenge [''example.com''] ex_hook)) = provider ex_hook"
    by blast
  ultimately show ?thesis
    unfolding l t by simp
qed

text \<open>
  Claim C9: \<open>add_record\<close> and \<open>remove_record\<close> write \<^verbatim>\<open>record\<close>, \<^verbatim>\<open>type\<close> and
  \<^verbatim>\<open>value\<close> into the one dictionary at \<open>HOST_API_PARAMS\<close>, where they stay; a later
  \<open>record_exists\<close> assigns \<^verbatim>\<open>cmd\<close> only and sends the dictionary with these entries in it.
\<close>

theorem shared_params_leak:
  "heap (snd (add_record r v st)) HOST_API_PARAMS =
     AList.update ''value'' v (AList.update ''type'' ''TXT'' (AList.update ''record'' r
       (AList.update ''cmd'' ''dns-add_record'' (heap st HOST_API_PARAMS)))) \<and>
   trace (snd (record_exists r' (snd (add_record r v st)))) =
     trace (snd (add_record r v st)) @
       [HttpGet HOST_API_ROOT (list_params (snd (add_record r v st)))] \<and>
   map_of (list_params (snd (add_record r v st))) ''cmd'' = Some ''dns-list_records'' \<and>
   map_of (list_params (snd (add_record r v st))) ''record'' = Some r \<and>
   map_of (list_params (snd (add_record r v st))) ''type'' = Some ''TXT'' \<and>
   map_of (list_params (snd (add_record r v st))) ''value'' = Some v \<and>
   heap (snd (remove_record r v st)) HOST_API_PARAMS =
     AList.update ''value'' v (AList.update ''type'' ''TXT'' (AList.update ''record'' r
       (AList.update ''cmd'' ''dns-remove_record'' (heap st HOST_API_PARAMS)))) \<and>
   trace (snd (record_exists r' (snd (remove_record r v st)))) =
     trace (snd (remove_record r v st)) @
       [HttpGet HOST_API_ROOT (list_params (snd (remove_record r v st)))] \<and>
   map_of (list_params (snd (remove_record r v st))) ''cmd'' = Some ''dns-list_records'' \<and>
   map_of (list_params (snd (remove_record r v st))) ''record'' = Some r \<and>
   map_of (list_params (snd (remove_record r v st))) ''type'' = Some ''TXT'' \<and>
   map_of (list_params (snd (remove_record r v st))) ''value'' = Some v"
  by (simp add: record_exists_eq list_params_def add_record_simps remove_record_simps update_conv')

theorem shared_params_leak_witness:
  "trace (snd (record_exists ex_record (snd (add_record ex_record ''tokenABC'' ex_hook)))) =
     [HttpGet HOST_API_ROOT
        [(''key'', ''SECRET''), (''format'', ''json''), (''cmd'', ''dns-add_record''),
         (''record'', ex_record), (''type'', ''TXT''), (''value'', ''tokenABC'')],
      HttpGet HOST_API_ROOT
        [(''key'', ''SECRET''), (''format'', ''json''), (''cmd'', ''dns-list_records''),
         (''record'', ex_record), (''type'', ''TXT''), (''value'', ''tokenABC'')]]"
proof -
  note t = shared_params_leak [of ex_record "''tokenABC''" ex_hook ex_record]
  have h: "heap ex_hook HOST_API_PARAMS = [(''key'', ''SECRET''), (''format'', ''json'')]"
    and e: "trace ex_hook = []"
    by (simp_all add: ex_hook_def)
  from t have a: "heap (snd (add_record ex_record ''tokenABC'' ex_hook)) HOST_API_PARAMS =
     AList.update ''value'' ''tokenABC'' (AList.update ''type'' ''TXT'' (AList.update ''record'' ex_record
       (AList.update ''cmd'' ''dns-add_record'' (heap ex_hook HOST_API_PARAMS))))"
    by blast
  from t have b: "trace (snd (record_exists ex_record (snd (add_record ex_record ''tokenABC'' ex_hook)))) =
     trace (snd (add_record ex_record ''tokenABC'' ex_hook)) @
       [HttpGet HOST_API_ROOT (list_params (snd (add_record ex_record ''tokenABC'' ex_hook)))]"
    by blast
  show ?thesis
    unfolding b list_params_def a add_record_simps(2) h e by simp
qed

subsection \<open>TXT records and the token\<close>

lemma escapify_Nil [simp]: "escapify [] = []"
  by (simp add: escapify_def)

lemma escapify_Cons [simp]: "escapify (c # s) = escapify_char c @ escapify s"
  by (simp add: escapify_def)

lemma escapify_char_plain: "plain c \<Longrightarrow> escapify_char c = [c]"
  by (simp add: escapify_char_def plain_def)

lemma escapify_char_not_plain: "\<not> plain c \<Longrightarrow> CHR 0x5C \<in> set (escapify_char c)"
  by (auto simp: escapify_char_def plain_def)

lemma backslash_not_plain: "\<not> plain (CHR 0x5C)"
  by (simp add: plain_def)

lemma quote_not_plain: "\<not> plain (CHR 0x22)"
  by (simp add: plain_def)

lemma escapify_plain: "list_all plain s \<Longrightarrow> escapify s = s"
  by (induction s) (simp_all add: escapify_char_plain)

lemma escapify_eq_plain:
  "list_all plain t \<Longrightarrow> escapify s = t \<Longrightarrow> s = t"
proof (induction s arbitrary: t)
  case Nil
  then show ?case by simp
next
  case (Cons c s)
  have p: "plain c"
  proof (rule ccontr)
    assume "\<not> plain c"
    then have "CHR 0x5C \<in> set (escapify (c # s))"
      using escapify_char_not_plain by simp
    with Cons.prems have "CHR 0x5C \<in> set t" by simp
    with Cons.prems(1) show False
      using backslash_not_plain by (auto simp: list_all_iff)
  qed
  with Cons.prems obtain t' where t: "t = c # t'" "escapify s = t'"
    by (auto simp: escapify_char_plain)
  with Cons.prems(1) have "list_all plain t'" by simp
  from Cons.IH [OF this t(2)] t show ?case by simp
qed

lemma slice_single: "slice_1_m1 (to_text [s]) = escapify s"
  by (simp add: slice_1_m1_def)

lemma to_text_not_Nil: "to_text (t # rest) \<noteq> []"
  by (cases rest) simp_all

lemma slice_several:
  "slice_1_m1 (to_text (s # t # rest)) =
     escapify s @ [CHR 0x22, CHR '' '', CHR 0x22] @ butlast (tl (to_text (t # rest)))"
proof -
  obtain u where u: "to_text (t # rest) = CHR 0x22 # u" "u \<noteq> []"
    by (cases rest) auto
  then show ?thesis
    by (simp add: slice_1_m1_def butlast_append)
qed

lemma slice_eq_plain_iff:
  assumes "list_all plain token" and "token \<noteq> []"
  shows "slice_1_m1 (to_text rdata) = token \<longleftrightarrow> rdata = [token]"
proof (cases rdata)
  case Nil
  with assms(2) show ?thesis by (auto simp: slice_1_m1_def)
next
  case (Cons s more)
  show ?thesis
  proof (cases more)
    case Nil
    have "escapify s = token \<longleftrightarrow> s = token"
      using escapify_eq_plain [OF assms(1), of s] escapify_plain [OF assms(1)] by blast
    with Nil \<open>rdata = s # more\<close> show ?thesis
      by (simp add: slice_1_m1_def)
  next
    case (Cons t rest)
    have "CHR 0x22 \<in> set (slice_1_m1 (to_text (s # t # rest)))"
      unfolding slice_several by simp
    moreover have "CHR 0x22 \<notin> set token"
      using assms(1) quote_not_plain by (auto simp: list_all_iff)
    ultimately show ?thesis
      using Cons \<open>rdata = s # more\<close> by auto
  qed
qed

text \<open>
  Claim C7 says that the segments of a TXT record are concatenated and unquoted before the
  comparison. The code drops the first and the last character of the record's text and
  nothing more: for the record with the two segments \<open>token\<close> and \<open>ABC\<close> the text compared
  keeps the inner quotes and the space, it differs from \<open>tokenABC\<close>, and the poll does not
  count.
\<close>

theorem segments_not_joined_counterexample:
  "concat [''token'', ''ABC''] = ''tokenABC'' \<and>
   ex_resolver_split (dns_queries ex_hook) ex_record = Inr [[''token'', ''ABC'']] \<and>
   slice_1_m1 (to_text [''token'', ''ABC'']) = ''token'' @ [CHR 0x22, CHR '' '', CHR 0x22] @ ''ABC'' \<and>
   has_dns_propagated ex_resolver_split ex_record ''tokenABC'' ex_hook =
     (False, ex_hook\<lparr>dns_queries := 1\<rparr>) \<and>
   DNS_COUNTER (snd (has_dns_propagated ex_resolver_split ex_record ''tokenABC'' ex_hook)) =
     DNS_COUNTER ex_hook"
  by (simp add: ex_resolver_split_def has_dns_propagated_def slice_1_m1_def escapify_char_def
      ex_hook_def)

text \<open>
  Claim C7, as the code has it: only the first and last character of each record's text are
  removed. For a non-empty token of printable characters other than the double quote and the
  backslash, a poll counts exactly when the answer holds a record made of the one segment
  equal to the token; the text compared for a record of two segments is the two escaped
  segments with a quote, a space and a quote between them.
\<close>

theorem txt_compared_as_one_segment:
  assumes "resolver (dns_queries st) record_name = Inr answer"
      and "list_all plain token" and "token \<noteq> []"
  shows "DNS_COUNTER (snd (has_dns_propagated resolver record_name token st)) =
           DNS_COUNTER st + (if [token] \<in> set answer then 1 else 0) \<and>
         slice_1_m1 (to_text [token]) = token \<and>
         slice_1_m1 (to_text [a, b]) = escapify a @ [CHR 0x22, CHR '' '', CHR 0x22] @ escapify b"
proof -
  have one: "slice_1_m1 (to_text [token]) = token"
    using assms(2) by (simp add: slice_1_m1_def escapify_plain)
  have "token \<in> set (map (\<lambda>rdata. slice_1_m1 (to_text rdata)) answer) \<longleftrightarrow>
          [token] \<in> set answer"
  proof
    assume "token \<in> set (map (\<lambda>rdata. slice_1_m1 (to_text rdata)) answer)"
    then obtain rdata where r: "rdata \<in> set answer" "slice_1_m1 (to_text rdata) = token"
      by auto
    from r(2) have "rdata = [token]"
      using slice_eq_plain_iff [OF assms(2,3), of rdata] by blast
    with r(1) show "[token] \<in> set answer" by blast
  next
    assume "[token] \<in> set answer"
    then have "slice_1_m1 (to_text [token]) \<in> (\<lambda>rdata. slice_1_m1 (to_text rdata)) ` set answer"
      by (rule imageI)
    then show "token \<in> set (map (\<lambda>rdata. slice_1_m1 (to_text rdata)) answer)"
      unfolding one by simp
  qed
  then have "confirming resolver record_name token (dns_queries st) \<longleftrightarrow> [token] \<in> set answer"
    using assms(1) by (simp add: confirming_def)
  then have "DNS_COUNTER (snd (has_dns_propagated resolver record_name token st)) =
           DNS_COUNTER st + (if [token] \<in> set answer then 1 else 0)"
    by (simp add: has_dns_propagated_counter)
  moreover have "slice_1_m1 (to_text [a, b]) =
      escapify a @ [CHR 0x22, CHR '' '', CHR 0x22] @ escapify b"
    by (simp add: slice_1_m1_def butlast_append)
  ultimately show ?thesis using one by simp
qed

theorem txt_compared_as_one_segment_witness:
  "DNS_COUNTER (snd (has_dns_propagated ex_resolver ex_record ''tokenABC'' ex_hook)) = 1 \<and>
   DNS_COUNTER (snd (has_dns_propagated ex_resolver_split ex_record ''tokenABC'' ex_hook)) = 0"
proof -
  have p: "list_all plain ''tokenABC''" and n: "''tokenABC'' \<noteq> []"
    by (simp_all add: plain_def)
  have r1: "ex_resolver (dns_queries ex_hook) ex_record = Inr [[''tokenABC'']]"
    and r2: "ex_resolver_split (dns_queries ex_hook) ex_record = Inr [[''token'', ''ABC'']]"
    by (simp_all add: ex_resolver_def ex_resolver_split_def ex_hook_def)
  have c: "DNS_COUNTER ex_hook = 0" by (simp add: ex_hook_def)
  note t1 = txt_compared_as_one_segment [where resolver = ex_resolver and st = ex_hook
      and record_name = ex_record and answer = "[[''tokenABC'']]" and token = "''tokenABC''"
      and a = "''token''" and b = "''ABC''", OF r1 p n]
  note t2 = txt_compared_as_one_segment [where resolver = ex_resolver_split and st = ex_hook
      and record_name = ex_record and answer = "[[''token'', ''ABC'']]" and token = "''tokenABC''"
      and a = "''token''" and b = "''ABC''", OF r2 p n]
  from t1 have "DNS_COUNTER (snd (has_dns_propagated ex_resolver ex_record ''tokenABC'' ex_hook)) =
      DNS_COUNTER ex_hook + (if [''tokenABC''] \<in> set [[''tokenABC'']] then 1 else 0)"
    by blast
  moreover from t2 have
    "DNS_COUNTER (snd (has_dns_propagated ex_resolver_split ex_record ''tokenABC'' ex_hook)) =
      DNS_COUNTER ex_hook + (if [''tokenABC''] \<in> set [[''token'', ''ABC'']] then 1 else 0)"
    by blast
  ultimately show ?thesis
    using c by simp
qed

end
